theory Spec2Isabelle
  imports Main "HOL-Library.Word" "HOL-Library.Multiset"
begin

unbundle bit_operations_syntax

section \<open>The disk-usage explorer of cleaner.c\<close>

text \<open>
  The program walks a directory into a tree of \<^verbatim>\<open>struct file\<close> nodes, shows the node under
  the cursor with its children ranked by size, and deletes entries on \<^verbatim>\<open>/rm\<close>. The theory
  embeds the functions of \<^verbatim>\<open>src/cleaner.c\<close> (its first 486 lines, the current version of
  the program) as HOL functions and proves properties of them.
\<close>

subsection \<open>How a call ends\<close>

text \<open>
  A C function of the program either returns, or the process ends inside it.
  \<^item> \<open>Returns v\<close>: the call returns \<open>v\<close> (with the state it leaves behind, where it has one).
  \<^item> \<open>Exits status\<close>: the process has called \<^verbatim>\<open>exit(status)\<close>. The only caller is
    \<^verbatim>\<open>err(eval, fmt, ...)\<close> of \<^verbatim>\<open>err.h\<close>, which prints the message and the text of
    \<^verbatim>\<open>errno\<close> to stderr and then exits with \<^verbatim>\<open>eval\<close>: it does not return (err(3)). The
    program always passes \<^verbatim>\<open>errno\<close> as \<^verbatim>\<open>eval\<close>, so the statement written after each
    \<^verbatim>\<open>err(errno, ...)\<close> is never reached.
  \<^item> \<open>Crashes\<close>: the run has no defined result: a failed \<^verbatim>\<open>assert\<close>, a dereference of
    \<^verbatim>\<open>NULL\<close>, a read outside an allocation or of memory never written, a use after
    \<^verbatim>\<open>free\<close>.
\<close>

datatype 'a outcome = Returns 'a | Exits int | Crashes

text \<open>Lines written to stderr by \<^verbatim>\<open>fprintf\<close> are collected in a list, oldest first; stdout
  is not modelled. \<open>logged\<close> puts the lines written before a call in front of its own.\<close>

fun logged :: "string list \<Rightarrow> ('a \<times> string list) outcome \<Rightarrow> ('a \<times> string list) outcome" where
  "logged l (Returns (v, l')) = Returns (v, l @ l')"
| "logged l (Exits e) = Exits e"
| "logged l Crashes = Crashes"

subsection \<open>Paths\<close>

text \<open>\<^verbatim>\<open>concat_path\<close>: a slash is added unless \<^verbatim>\<open>path_a\<close> ends in one. (For an empty
  \<^verbatim>\<open>path_a\<close> the source reads \<^verbatim>\<open>path_a[-1]\<close>; \<^verbatim>\<open>build_tree\<close> never gets that far, since
  \<^verbatim>\<open>lstat("")\<close> fails.)\<close>

definition concat_path :: "string \<Rightarrow> string \<Rightarrow> string" where
  "concat_path path_a path_b =
     (if path_a \<noteq> [] \<and> last path_a = CHR ''/'' then path_a @ path_b
      else path_a @ ''/'' @ path_b)"

text \<open>\<^verbatim>\<open>get_file_name\<close>: the scan over the characters of \<^verbatim>\<open>path\<close>, with \<^verbatim>\<open>result\<close> (a suffix of
  the path) and \<^verbatim>\<open>prev\<close>.\<close>

fun get_file_name_loop :: "string \<Rightarrow> string \<Rightarrow> bool \<Rightarrow> string" where
  "get_file_name_loop [] result prev = result"
| "get_file_name_loop (c # p) result prev =
     (if c = CHR ''/'' then get_file_name_loop p result True
      else get_file_name_loop p (if prev then c # p else result) False)"

definition get_file_name :: "string \<Rightarrow> string" where
  "get_file_name path = get_file_name_loop path path False"

subsection \<open>The tree in memory\<close>

text \<open>
  \<^verbatim>\<open>off_t\<close> is a signed 64-bit integer: sizes are 64-bit words, added with wrap-around and
  compared through \<open>sint\<close>. \<^verbatim>\<open>type\<close> is a \<^verbatim>\<open>uint8_t\<close>.

  A node (type \<open>file_t\<close>) is allocated as a \<^verbatim>\<open>struct file\<close> (\<open>File name sz type\<close>) or, when
  \<^verbatim>\<open>S_ISDIR\<close> held at build time, as a \<^verbatim>\<open>struct directory\<close>
  (\<open>Directory name sz type subdirs self_size subdirs_sorted\<close>), whose first member is the
  \<^verbatim>\<open>struct file\<close>. The list linked through \<^verbatim>\<open>next\<close> is a HOL list. \<^verbatim>\<open>subdirs_sorted\<close> is
  \<open>None\<close> while it has never been written (\<^verbatim>\<open>build_tree\<close> leaves it so for a directory it
  could not open).
\<close>

type_synonym off_t = "64 word"

datatype file_t =
    File string off_t "8 word"
  | Directory string off_t "8 word" "file_t list" off_t "bool option"

fun file_name :: "file_t \<Rightarrow> string" where
  "file_name (File name sz type) = name"
| "file_name (Directory name sz type subdirs self_size subdirs_sorted) = name"

fun file_size :: "file_t \<Rightarrow> off_t" where
  "file_size (File name sz type) = sz"
| "file_size (Directory name sz type subdirs self_size subdirs_sorted) = sz"

fun file_type :: "file_t \<Rightarrow> 8 word" where
  "file_type (File name sz type) = type"
| "file_type (Directory name sz type subdirs self_size subdirs_sorted) = type"

text \<open>
  A pointer to a node, together with what is reached from it through \<^verbatim>\<open>parent\<close>, is a
  cursor: the node, and one frame per ancestor, nearest first. A frame holds the fields of
  the parent and the parent's other children, those before the node in \<^verbatim>\<open>subdirs\<close> and
  those after it. The root has no frame: its \<^verbatim>\<open>parent\<close> is \<^verbatim>\<open>NULL\<close>.
  \<open>plug\<close> gives back the parent as a node.
\<close>

record frame =
  parent_name :: string
  parent_size :: off_t
  parent_type :: "8 word"
  before :: "file_t list"
  after :: "file_t list"
  parent_self_size :: off_t
  parent_subdirs_sorted :: "bool option"

type_synonym cursor = "file_t \<times> frame list"

definition plug :: "file_t \<Rightarrow> frame \<Rightarrow> file_t" where
  "plug f fr =
     Directory (parent_name fr) (parent_size fr) (parent_type fr)
       (before fr @ f # after fr) (parent_self_size fr) (parent_subdirs_sorted fr)"

fun root_of :: "cursor \<Rightarrow> file_t" where
  "root_of (f, []) = f"
| "root_of (f, fr # frs) = root_of (plug f fr, frs)"

subsection \<open>Sorting the children\<close>

text \<open>\<^verbatim>\<open>reverse\<close>: \<open>p\<close> is the reversed part, the second argument is \<^verbatim>\<open>x\<close>.\<close>

fun reverse_loop :: "file_t list \<Rightarrow> file_t list \<Rightarrow> file_t list" where
  "reverse_loop p [] = p"
| "reverse_loop p (x # c) = reverse_loop (x # p) c"

fun reverse :: "file_t list \<Rightarrow> file_t list" where
  "reverse [] = []"
| "reverse (f # x) = reverse_loop [f] x"

text \<open>\<^verbatim>\<open>merge\<close>: the loop pushes the chosen node on \<^verbatim>\<open>result\<close>; \<^verbatim>\<open>a\<close> is taken when
  \<^verbatim>\<open>b\<close> is empty or \<^verbatim>\<open>a->size > b->size\<close>, else \<^verbatim>\<open>b\<close>.\<close>

fun merge_loop :: "file_t list \<Rightarrow> file_t list \<Rightarrow> file_t list \<Rightarrow> file_t list" where
  "merge_loop [] [] result = result"
| "merge_loop (x # a) [] result = merge_loop a [] (x # result)"
| "merge_loop [] (y # b) result = merge_loop [] b (y # result)"
| "merge_loop (x # a) (y # b) result =
     (if sint (file_size y) < sint (file_size x)
      then merge_loop a (y # b) (x # result)
      else merge_loop (x # a) b (y # result))"

definition merge :: "file_t list \<Rightarrow> file_t list \<Rightarrow> file_t list" where
  "merge a b = reverse (merge_loop a b [])"

text \<open>\<^verbatim>\<open>do_merge_sort\<close>: the two asserts, the walk to the \<open>m\<close>-th node (which dereferences
  \<^verbatim>\<open>NULL\<close> when the list has fewer than \<open>m\<close> nodes), the cut after it.\<close>

function do_merge_sort :: "file_t list \<Rightarrow> nat \<Rightarrow> file_t list outcome" where
  "do_merge_sort files n =
     (if n = 0 then (if files = [] then Returns files else Crashes)
      else if n = 1 then (case files of [f] \<Rightarrow> Returns files | _ \<Rightarrow> Crashes)
      else
        let m = n div 2 in
        if length files < m then Crashes
        else
          case do_merge_sort (take m files) m of
            Returns a \<Rightarrow>
              (case do_merge_sort (drop m files) (n - m) of
                 Returns b \<Rightarrow> Returns (merge a b)
               | Exits e \<Rightarrow> Exits e
               | Crashes \<Rightarrow> Crashes)
          | Exits e \<Rightarrow> Exits e
          | Crashes \<Rightarrow> Crashes)"
  by pat_completeness auto
termination
  by (relation "measure (\<lambda>(files, n). n)") auto

declare do_merge_sort.simps [simp del]

text \<open>\<^verbatim>\<open>sorted_subdirs\<close> returns the directory as it leaves it and the list it returns.\<close>

fun sorted_subdirs :: "file_t \<Rightarrow> (file_t \<times> file_t list) outcome" where
  "sorted_subdirs (Directory name sz type subdirs self_size None) = Crashes"
| "sorted_subdirs (Directory name sz type subdirs self_size (Some True)) =
     Returns (Directory name sz type subdirs self_size (Some True), subdirs)"
| "sorted_subdirs (Directory name sz type subdirs self_size (Some False)) =
     (case do_merge_sort subdirs (length subdirs) of
        Returns sorted_list \<Rightarrow>
          Returns (Directory name sz type sorted_list self_size (Some True), sorted_list)
      | Exits e \<Rightarrow> Exits e
      | Crashes \<Rightarrow> Crashes)"
| "sorted_subdirs (File name sz type) = Crashes"

subsection \<open>Building the tree\<close>

text \<open>
  What the file system answers: \<open>Fs_node st dir\<close> is an entry for which \<^verbatim>\<open>lstat\<close> gives
  \<open>st\<close> (\<open>Inl errno\<close> when it fails, else the \<^verbatim>\<open>struct stat\<close>) and \<^verbatim>\<open>opendir\<close> gives
  \<open>dir\<close>: \<open>None\<close> when it fails, else what \<^verbatim>\<open>readdir\<close> lists, in its order, each
  \<^verbatim>\<open>d_name\<close> with the entry under it.
\<close>

record stat =
  st_mode :: "32 word"
  st_size :: off_t

datatype fs_node = Fs_node "int + stat" "(string \<times> fs_node) list option"

definition S_IFMT :: "32 word" where
  "S_IFMT = 0xF000"

definition S_IFDIR :: "32 word" where
  "S_IFDIR = 0x4000"

definition S_ISDIR :: "32 word \<Rightarrow> bool" where
  "S_ISDIR m = (m AND S_IFMT = S_IFDIR)"

definition FILE_TYPE_OFFSET :: nat where
  "FILE_TYPE_OFFSET = 12"

definition DIRECTORY_UNLISTABLE :: "8 word" where
  "DIRECTORY_UNLISTABLE = 16"

text \<open>
  \<^verbatim>\<open>build_tree\<close> returns a pointer (\<open>None\<close> for \<^verbatim>\<open>NULL\<close>) and the lines written to stderr.
  \<open>build_entries\<close> is its \<^verbatim>\<open>readdir\<close> loop, with \<^verbatim>\<open>directory->subdirs\<close> and
  \<^verbatim>\<open>file->size\<close> as they stand. A failing \<^verbatim>\<open>lstat\<close> ends in \<^verbatim>\<open>err(errno, ...)\<close>.
\<close>

fun build_tree :: "string \<Rightarrow> fs_node \<Rightarrow> (file_t option \<times> string list) outcome"
  and build_entries ::
    "string \<Rightarrow> (string \<times> fs_node) list \<Rightarrow> file_t list \<Rightarrow> off_t
       \<Rightarrow> ((file_t list \<times> off_t) \<times> string list) outcome"
where
  "build_tree path (Fs_node st dir) =
     (case st of
        Inl errno \<Rightarrow> Exits errno
      | Inr s \<Rightarrow>
          let type = ucast (drop_bit FILE_TYPE_OFFSET (st_mode s AND S_IFMT)) in
          if S_ISDIR (st_mode s) then
            (case dir of
               Some entries \<Rightarrow>
                 (case build_entries path entries [] (st_size s) of
                    Returns ((subdirs, sz), l) \<Rightarrow>
                      Returns (Some (Directory path sz type subdirs (st_size s) (Some False)), l)
                  | Exits e \<Rightarrow> Exits e
                  | Crashes \<Rightarrow> Crashes)
             | None \<Rightarrow>
                 Returns (Some (Directory path (st_size s) (type OR DIRECTORY_UNLISTABLE) []
                                  (st_size s) None), []))
          else Returns (Some (File path (st_size s) type), []))"
| "build_entries path [] subdirs sz = Returns ((subdirs, sz), [])"
| "build_entries path ((d_name, n) # rest) subdirs sz =
     (if d_name = ''.'' \<or> d_name = ''..'' then build_entries path rest subdirs sz
      else
        case build_tree (concat_path path d_name) n of
          Returns (Some new_file, l) \<Rightarrow>
            logged l (build_entries path rest (new_file # subdirs) (sz + file_size new_file))
        | Returns (None, l) \<Rightarrow>
            logged (l @ [''[WARNING]: cannot find file '' @ concat_path path d_name])
              (build_entries path rest subdirs sz)
        | Exits e \<Rightarrow> Exits e
        | Crashes \<Rightarrow> Crashes)"

subsection \<open>Deleting\<close>

text \<open>\<^verbatim>\<open>update_size\<close> takes a \<^verbatim>\<open>struct directory\<close>; every call of it here is on a
  \<open>Directory\<close>.\<close>

fun update_size :: "file_t \<Rightarrow> file_t" where
  "update_size (Directory name sz type subdirs self_size subdirs_sorted) =
     Directory name (foldl (+) self_size (map file_size subdirs)) type subdirs self_size
       (Some False)"
| "update_size (File name sz type) = File name sz type"

text \<open>
  \<^verbatim>\<open>unlink\<close> and \<^verbatim>\<open>rmdir\<close> answer 0, or the \<^verbatim>\<open>errno\<close> they fail with.
\<close>

record sys =
  unlink :: "string \<Rightarrow> int"
  rmdir :: "string \<Rightarrow> int"

text \<open>
  \<open>remove_node\<close> is \<^verbatim>\<open>remove_file_internal\<close> up to line 337, which is all of it when
  \<^verbatim>\<open>remove_parent\<close> is false; it returns \<^verbatim>\<open>result\<close>, the node as it leaves it and the
  lines written. \<open>remove_children\<close> is the loop over \<^verbatim>\<open>*subdirs\<close>: it returns the children
  left in the list and \<^verbatim>\<open>result\<close>. A node whose \<^verbatim>\<open>type\<close> has the bit of value 4 set is
  read as a \<^verbatim>\<open>struct directory\<close>, also when it was allocated as a \<^verbatim>\<open>struct file\<close> (type
  6, a block device, or 12, a socket), where \<^verbatim>\<open>d->subdirs\<close> lies outside the allocation.
\<close>

fun remove_node :: "sys \<Rightarrow> file_t \<Rightarrow> ((bool \<times> file_t) \<times> string list) outcome"
  and remove_children ::
    "sys \<Rightarrow> file_t list \<Rightarrow> bool \<Rightarrow> ((file_t list \<times> bool) \<times> string list) outcome"
where
  "remove_node sy (File name sz type) =
     (if type AND 4 \<noteq> 0 then Crashes
      else if unlink sy name \<noteq> 0 then
        (if rmdir sy name \<noteq> 0 then Exits (rmdir sy name)
         else Returns ((True, File name sz type), []))
      else Returns ((True, File name sz type), []))"
| "remove_node sy (Directory name sz type subdirs self_size subdirs_sorted) =
     (if type AND 4 \<noteq> 0 then
        (case remove_children sy subdirs True of
           Returns ((kept, result), l) \<Rightarrow>
             (if \<not> result then
                Returns ((False,
                   update_size (Directory name sz type kept self_size subdirs_sorted)),
                   l @ [''[WARNING] skipping '' @ name @ ''; not all children removed''])
              else if rmdir sy name \<noteq> 0 then Exits (rmdir sy name)
              else
                Returns ((True,
                   update_size (Directory name sz type kept self_size subdirs_sorted)), l))
         | Exits e \<Rightarrow> Exits e
         | Crashes \<Rightarrow> Crashes)
      else if unlink sy name \<noteq> 0 then
        (if rmdir sy name \<noteq> 0 then Exits (rmdir sy name)
         else Returns ((True, Directory name sz type subdirs self_size subdirs_sorted), []))
      else Returns ((True, Directory name sz type subdirs self_size subdirs_sorted), []))"
| "remove_children sy [] result = Returns (([], result), [])"
| "remove_children sy (c # nxt) result =
     (case remove_node sy c of
        Returns ((True, c'), l) \<Rightarrow> logged l (remove_children sy nxt result)
      | Returns ((False, c'), l) \<Rightarrow>
          (case remove_children sy nxt False of
             Returns ((kept, result'), l') \<Rightarrow> Returns ((c' # kept, result'), l @ l')
           | Exits e \<Rightarrow> Exits e
           | Crashes \<Rightarrow> Crashes)
      | Exits e \<Rightarrow> Exits e
      | Crashes \<Rightarrow> Crashes)"

text \<open>
  The walk up from \<^verbatim>\<open>parent\<close> (lines 355 to 361): \<^verbatim>\<open>update_size\<close> on each ancestor, nearest
  first. \<open>update_size_frame child fr\<close> is \<^verbatim>\<open>update_size\<close> on the directory of frame
  \<open>fr\<close> whose child on the path is \<open>child\<close>.
\<close>

definition update_size_frame :: "file_t \<Rightarrow> frame \<Rightarrow> frame" where
  "update_size_frame child fr =
     fr\<lparr>parent_size :=
          foldl (+) (parent_self_size fr) (map file_size (before fr @ child # after fr)),
        parent_subdirs_sorted := Some False\<rparr>"

fun update_sizes :: "file_t \<Rightarrow> frame list \<Rightarrow> frame list" where
  "update_sizes child [] = []"
| "update_sizes child (fr # frs) =
     update_size_frame child fr # update_sizes (plug child (update_size_frame child fr)) frs"

text \<open>
  \<^verbatim>\<open>remove_file_internal\<close> on the node under a cursor. It returns \<^verbatim>\<open>result\<close>, the cursor of
  the node's parent as the call leaves it (\<open>None\<close> when \<^verbatim>\<open>f->parent\<close> is \<^verbatim>\<open>NULL\<close>) and the
  lines written. With \<^verbatim>\<open>result && remove_parent\<close> the node is unlinked from the parent's
  list and freed; with \<^verbatim>\<open>remove_parent\<close> the sizes of all ancestors are recomputed.
\<close>

definition remove_file_internal ::
    "sys \<Rightarrow> cursor \<Rightarrow> bool \<Rightarrow> ((bool \<times> cursor option) \<times> string list) outcome" where
  "remove_file_internal sy cur remove_parent =
     (case remove_node sy (fst cur) of
        Returns ((result, f'), l) \<Rightarrow>
          (case snd cur of
             [] \<Rightarrow> Returns ((result, None), l)
           | fr # frs \<Rightarrow>
               let d = (if result \<and> remove_parent
                        then Directory (parent_name fr) (parent_size fr) (parent_type fr)
                               (before fr @ after fr) (parent_self_size fr)
                               (parent_subdirs_sorted fr)
                        else plug f' fr)
               in if remove_parent
                  then Returns ((result, Some (update_size d, update_sizes (update_size d) frs)), l)
                  else Returns ((result, Some (d, frs)), l))
      | Exits e \<Rightarrow> Exits e
      | Crashes \<Rightarrow> Crashes)"

definition remove_file ::
    "sys \<Rightarrow> cursor \<Rightarrow> ((bool \<times> cursor option) \<times> string list) outcome" where
  "remove_file sy cur = remove_file_internal sy cur True"

subsection \<open>Commands\<close>

text \<open>\<^verbatim>\<open>isspace\<close> in the C locale.\<close>

definition isspace :: "char \<Rightarrow> bool" where
  "isspace c = (c \<in> set [CHR '' '', CHR 0x09, CHR 0x0A, CHR 0x0B, CHR 0x0C, CHR 0x0D])"

text \<open>\<^verbatim>\<open>extract_name\<close>: the line without the white space around it.\<close>

definition extract_name :: "string \<Rightarrow> string" where
  "extract_name line =
     (let start = dropWhile isspace line
      in if start = [] then start else rev (dropWhile isspace (rev start)))"

text \<open>\<^verbatim>\<open>is_empty_line\<close>; \<open>None\<close> is the \<^verbatim>\<open>NULL\<close> that \<^verbatim>\<open>strsep\<close> leaves in \<^verbatim>\<open>line\<close> when
  the command has no argument.\<close>

fun is_empty_line :: "string option \<Rightarrow> bool" where
  "is_empty_line None = True"
| "is_empty_line (Some s) = list_all isspace s"

text \<open>\<^verbatim>\<open>strsep(&line, delim)\<close>: the token, and \<^verbatim>\<open>line\<close> afterwards.\<close>

definition strsep :: "string \<Rightarrow> string \<Rightarrow> string \<times> string option" where
  "strsep line delim =
     (takeWhile (\<lambda>c. c \<notin> set delim) line,
      case dropWhile (\<lambda>c. c \<notin> set delim) line of [] \<Rightarrow> None | c # rest \<Rightarrow> Some rest)"

text \<open>
  \<^verbatim>\<open>next_entity\<close>. \<^verbatim>\<open>&f->parent->file\<close> is the address \<^verbatim>\<open>f->parent\<close> itself (\<^verbatim>\<open>file\<close> is the
  first member), so it is \<^verbatim>\<open>NULL\<close> at the root, and nothing is read through it; the
  program tests that pointer against \<^verbatim>\<open>NULL\<close> in \<^verbatim>\<open>process_rm\<close>. \<open>find_entity\<close> is the
  loop over \<^verbatim>\<open>d->subdirs\<close>, with the children already passed.
\<close>

fun find_entity ::
    "string \<Rightarrow> file_t list \<Rightarrow> file_t list \<Rightarrow> (file_t list \<times> file_t \<times> file_t list) option" where
  "find_entity s passed [] = None"
| "find_entity s passed (cur # rest) =
     (if get_file_name (file_name cur) = s then Some (passed, cur, rest)
      else find_entity s (passed @ [cur]) rest)"

fun next_entity :: "cursor \<Rightarrow> string \<Rightarrow> cursor option outcome" where
  "next_entity (f, frs) s =
     (if s = ''..'' then
        (case frs of [] \<Rightarrow> Returns None | fr # up \<Rightarrow> Returns (Some (plug f fr, up)))
      else if file_type f = 4 then
        (case f of
           File name sz type \<Rightarrow> Crashes
         | Directory name sz type subdirs self_size subdirs_sorted \<Rightarrow>
             (case find_entity s [] subdirs of
                None \<Rightarrow> Returns None
              | Some (b, cur, a) \<Rightarrow>
                  Returns (Some (cur,
                    \<lparr>parent_name = name, parent_size = sz, parent_type = type,
                     before = b, after = a, parent_self_size = self_size,
                     parent_subdirs_sorted = subdirs_sorted\<rparr> # frs))))
      else Returns None)"

text \<open>\<^verbatim>\<open>process_rm\<close>: \<^verbatim>\<open>to_remove->parent\<close> is read before \<^verbatim>\<open>to_remove\<close> is tested, so a
  name that \<^verbatim>\<open>next_entity\<close> does not find is a dereference of \<^verbatim>\<open>NULL\<close>. The value of
  \<^verbatim>\<open>remove_file\<close> is not looked at.\<close>

definition process_rm ::
    "sys \<Rightarrow> cursor \<Rightarrow> string option \<Rightarrow> (cursor option \<times> string list) outcome" where
  "process_rm sy cur line =
     (case (if is_empty_line line then Returns (Some cur)
            else next_entity cur (case line of Some s \<Rightarrow> s | None \<Rightarrow> [])) of
        Returns None \<Rightarrow> Crashes
      | Returns (Some to_remove) \<Rightarrow>
          (case remove_file sy to_remove of
             Returns ((result, parent), l) \<Rightarrow>
               Returns (parent,
                 l @ (if snd to_remove = [] then [''[INFO] removed root directory; exiting'']
                      else []))
           | Exits e \<Rightarrow> Exits e
           | Crashes \<Rightarrow> Crashes)
      | Exits e \<Rightarrow> Exits e
      | Crashes \<Rightarrow> Crashes)"

definition process_help :: "string option \<Rightarrow> string list" where
  "process_help line =
     (if \<not> is_empty_line line
      then [''[ERROR] wrong command: /help '' @ (case line of Some s \<Rightarrow> s | None \<Rightarrow> [])]
      else [])"

definition process_command ::
    "sys \<Rightarrow> cursor \<Rightarrow> string \<Rightarrow> (cursor option \<times> string list) outcome" where
  "process_command sy cur line =
     (let (cmd, line') = strsep line [CHR '' '', CHR 0x09, CHR 0x0A]
      in if cmd = ''/rm'' then process_rm sy cur line'
         else if cmd = ''/help'' then Returns (Some cur, process_help line')
         else Returns (Some cur, [''command not recognized: '' @ cmd]))"

text \<open>
  \<^verbatim>\<open>print_node\<close> changes the tree through \<^verbatim>\<open>sorted_subdirs\<close> only. What it prints is
  left out, and with it \<^verbatim>\<open>build_size_representation\<close>: its \<^verbatim>\<open>sprintf\<close> into
  \<^verbatim>\<open>char size[10]\<close> fits every size from -999 upwards and writes past the buffer for a
  size of -1000 or less, which only a sum that has wrapped around can be. For such sizes
  \<open>print_node\<close> says less than the code does.
\<close>

definition print_node :: "file_t \<Rightarrow> file_t outcome" where
  "print_node f =
     (if file_type f = 4 then
        (case sorted_subdirs f of
           Returns (d, shown) \<Rightarrow> Returns d
         | Exits e \<Rightarrow> Exits e
         | Crashes \<Rightarrow> Crashes)
      else Returns f)"

text \<open>One line of input (lines 459 to 473 of \<^verbatim>\<open>main\<close>): the new \<^verbatim>\<open>cur\<close> and the lines
  written.\<close>

definition dispatch ::
    "sys \<Rightarrow> cursor \<Rightarrow> string \<Rightarrow> (cursor option \<times> string list) outcome" where
  "dispatch sy cur line =
     (if line \<noteq> [] \<and> hd line = CHR ''/'' then process_command sy cur line
      else
        let name = extract_name line in
        case next_entity cur name of
          Returns None \<Rightarrow> Returns (Some cur, [''[ERROR] no such file: '' @ name])
        | Returns (Some nxt) \<Rightarrow> Returns (Some nxt, [])
        | Exits e \<Rightarrow> Exits e
        | Crashes \<Rightarrow> Crashes)"

text \<open>
  The loop of \<^verbatim>\<open>main\<close> over the lines \<^verbatim>\<open>readline\<close> returns; after the last one it
  returns \<^verbatim>\<open>NULL\<close>. The result is what \<^verbatim>\<open>main\<close> returns and the lines written;
  \<^verbatim>\<open>chdir\<close> and what \<^verbatim>\<open>print_node\<close> prints are left out. \<^verbatim>\<open>process_command\<close> returns
  \<^verbatim>\<open>NULL\<close> only from \<^verbatim>\<open>process_rm\<close> on the root, after \<^verbatim>\<open>remove_file\<close> has returned;
  it returns true whenever it returns, so \<^verbatim>\<open>remove_file_internal\<close> has freed the root
  (line 352), and \<^verbatim>\<open>deallocate_files(tree)\<close> at \<^verbatim>\<open>exit_tree\<close> reads and frees it again.
\<close>

fun main_loop :: "sys \<Rightarrow> cursor \<Rightarrow> string list \<Rightarrow> (int \<times> string list) outcome" where
  "main_loop sy cur [] =
     (case print_node (fst cur) of
        Returns f \<Rightarrow> Returns (0, [])
      | Exits e \<Rightarrow> Exits e
      | Crashes \<Rightarrow> Crashes)"
| "main_loop sy cur (line # rest) =
     (case print_node (fst cur) of
        Returns f \<Rightarrow>
          (case dispatch sy (f, snd cur) line of
             Returns (None, l) \<Rightarrow> Crashes
           | Returns (Some cur', l) \<Rightarrow> logged l (main_loop sy cur' rest)
           | Exits e \<Rightarrow> Exits e
           | Crashes \<Rightarrow> Crashes)
      | Exits e \<Rightarrow> Exits e
      | Crashes \<Rightarrow> Crashes)"

text \<open>
  What \<^verbatim>\<open>main\<close> is given: \<^verbatim>\<open>argv\<close>, what \<^verbatim>\<open>getcwd\<close> and \<^verbatim>\<open>realpath\<close> return (\<open>None\<close> for
  \<^verbatim>\<open>NULL\<close>), the \<^verbatim>\<open>errno\<close> of \<^verbatim>\<open>open(".")\<close> (0 when it succeeds), the file system under the
  base path, \<^verbatim>\<open>unlink\<close> and \<^verbatim>\<open>rmdir\<close>, and the lines typed. \<^verbatim>\<open>lstat(NULL)\<close> fails with
  \<^verbatim>\<open>EFAULT\<close>.
\<close>

record env =
  getcwd :: "string option"
  realpath :: "string \<Rightarrow> string option"
  open_dot :: int
  file_system :: fs_node
  syscalls :: sys
  input :: "string list"

definition EFAULT :: int where
  "EFAULT = 14"

definition main :: "string list \<Rightarrow> env \<Rightarrow> (int \<times> string list) outcome" where
  "main argv e =
     (if length argv = 1 \<or> length argv = 2 then
        let base_path = (if length argv = 1 then getcwd e else realpath e (argv ! 1)) in
        if open_dot e \<noteq> 0 then Exits (open_dot e)
        else
          case (case base_path of
                  None \<Rightarrow> Exits EFAULT
                | Some path \<Rightarrow> build_tree path (file_system e)) of
            Returns (None, l) \<Rightarrow>
              Returns (1, l @ [''[ERROR] failed to build a tree, check path''])
          | Returns (Some tree, l) \<Rightarrow> logged l (main_loop (syscalls e) (tree, []) (input e))
          | Exits status \<Rightarrow> Exits status
          | Crashes \<Rightarrow> Crashes
      else Returns (1, [''[ERROR] incorrect arguments'']))"

text \<open>The exit code of the process, when it has one.\<close>

fun exit_code :: "(int \<times> string list) outcome \<Rightarrow> int option" where
  "exit_code (Returns (code, l)) = Some code"
| "exit_code (Exits status) = Some status"
| "exit_code Crashes = None"

subsection \<open>The properties\<close>

text \<open>The size invariant of the data model: in every directory of the tree,
  \<^verbatim>\<open>size\<close> is \<^verbatim>\<open>self_size\<close> plus the sizes of the children.\<close>

fun size_ok :: "file_t \<Rightarrow> bool" where
  "size_ok (File name sz type) = True"
| "size_ok (Directory name sz type subdirs self_size subdirs_sorted) =
     (sz = self_size + sum_list (map file_size subdirs) \<and> (\<forall>c \<in> set subdirs. size_ok c))"

text \<open>Descending by size, as \<^verbatim>\<open>merge\<close> compares.\<close>

definition descending :: "file_t list \<Rightarrow> bool" where
  "descending fs = sorted_wrt (\<lambda>x y. sint (file_size y) \<le> sint (file_size x)) fs"

text \<open>The sort invariant of the data model: a directory whose \<^verbatim>\<open>subdirs_sorted\<close> is true
  has its children in descending order of size.\<close>

fun sorted_ok :: "file_t \<Rightarrow> bool" where
  "sorted_ok (File name sz type) = True"
| "sorted_ok (Directory name sz type subdirs self_size subdirs_sorted) =
     ((subdirs_sorted = Some True \<longrightarrow> descending subdirs) \<and> (\<forall>c \<in> set subdirs. sorted_ok c))"

subsection \<open>A small file system\<close>

text \<open>
  A directory \<^verbatim>\<open>/r\<close> with the files \<^verbatim>\<open>a\<close> (100 bytes) and \<^verbatim>\<open>b\<close> (200 bytes) and the
  directory \<^verbatim>\<open>c\<close>, which holds the file \<^verbatim>\<open>d\<close> (300 bytes); directories have size 0
  themselves. \<open>regular\<close> is a regular file of mode 0644, \<open>listing\<close> a directory of mode
  0755 that can be read. \<open>fixture_tree\<close> is the tree \<^verbatim>\<open>build_tree\<close> makes of it.
  \<open>all_ok\<close> lets every \<^verbatim>\<open>unlink\<close> and \<^verbatim>\<open>rmdir\<close> succeed; \<open>denied p\<close> makes both fail with
  \<^verbatim>\<open>EACCES\<close> (13) on the path \<open>p\<close>.
\<close>

definition regular :: "off_t \<Rightarrow> fs_node" where
  "regular n = Fs_node (Inr \<lparr>st_mode = 0x81A4, st_size = n\<rparr>) None"

definition listing :: "(string \<times> fs_node) list \<Rightarrow> fs_node" where
  "listing entries = Fs_node (Inr \<lparr>st_mode = 0x41ED, st_size = 0\<rparr>) (Some entries)"

definition fixture :: fs_node where
  "fixture =
     listing [(''.'', listing []), (''..'', listing []), (''a'', regular 100),
              (''b'', regular 200), (''c'', listing [(''d'', regular 300)])]"

definition fixture_tree :: file_t where
  "fixture_tree =
     Directory ''/r'' 600 4
       [Directory ''/r/c'' 300 4 [File ''/r/c/d'' 300 8] 0 (Some False),
        File ''/r/b'' 200 8, File ''/r/a'' 100 8]
       0 (Some False)"

definition all_ok :: sys where
  "all_ok = \<lparr>unlink = (\<lambda>p. 0), rmdir = (\<lambda>p. 0)\<rparr>"

definition denied :: "string \<Rightarrow> sys" where
  "denied p =
     \<lparr>unlink = (\<lambda>q. if q = p then 13 else 0), rmdir = (\<lambda>q. if q = p then 13 else 0)\<rparr>"

section \<open>Proofs\<close>

subsection \<open>The merge sort\<close>

lemma reverse_loop_rev: "reverse_loop p x = rev x @ p"
  by (induction p x rule: reverse_loop.induct) auto

lemma reverse_rev: "reverse xs = rev xs"
  by (cases xs) (auto simp: reverse_loop_rev)

lemma merge_loop_acc: "merge_loop a b r = merge_loop a b [] @ r"
proof (induction a arbitrary: b r)
  case Nil
  show ?case
  proof (induction b arbitrary: r)
    case Nil
    show ?case by simp
  next
    case (Cons y b)
    from Cons [of "y # r"] Cons [of "[y]"] show ?case by simp
  qed
next
  case (Cons x a)
  note outer = this
  show ?case
  proof (induction b arbitrary: r)
    case Nil
    from outer [of "[]" "x # r"] outer [of "[]" "[x]"] show ?case by simp
  next
    case (Cons y b)
    show ?case
    proof (cases "sint (file_size y) < sint (file_size x)")
      case True
      with outer [of "y # b" "x # r"] outer [of "y # b" "[x]"] show ?thesis by simp
    next
      case False
      with Cons [of "y # r"] Cons [of "[y]"] show ?thesis by simp
    qed
  qed
qed

lemma merge_Nil_Nil: "merge [] [] = []"
  by (simp add: merge_def)

lemma merge_Cons_Nil: "merge (x # a) [] = x # merge a []"
  using merge_loop_acc [of a "[]" "[x]"] by (simp add: merge_def reverse_rev)

lemma merge_Nil_Cons: "merge [] (y # b) = y # merge [] b"
  using merge_loop_acc [of "[]" b "[y]"] by (simp add: merge_def reverse_rev)

lemma merge_Cons_Cons:
  "merge (x # a) (y # b) =
     (if sint (file_size y) < sint (file_size x) then x # merge a (y # b)
      else y # merge (x # a) b)"
  using merge_loop_acc [of a "y # b" "[x]"] merge_loop_acc [of "x # a" b "[y]"]
  by (simp add: merge_def reverse_rev)

lemmas merge_simps = merge_Nil_Nil merge_Cons_Nil merge_Nil_Cons merge_Cons_Cons

lemma merge_induct:
  assumes "P [] []"
    and "\<And>x a. P a [] \<Longrightarrow> P (x # a) []"
    and "\<And>y b. P [] b \<Longrightarrow> P [] (y # b)"
    and "\<And>x a y b. (sint (file_size y) < sint (file_size x) \<Longrightarrow> P a (y # b)) \<Longrightarrow>
           (\<not> sint (file_size y) < sint (file_size x) \<Longrightarrow> P (x # a) b) \<Longrightarrow> P (x # a) (y # b)"
  shows "P a b"
proof -
  have "P a b" for r :: "file_t list"
  proof (induction a b r rule: merge_loop.induct)
    case (4 x a y b result)
    then show ?case using assms(4) by simp
  qed (use assms in auto)
  then show ?thesis .
qed

lemma merge_Nil_right: "merge a [] = a"
  by (induction a) (auto simp: merge_simps)

lemma merge_Nil_left: "merge [] b = b"
  by (induction b) (auto simp: merge_simps)

lemma mset_merge: "mset (merge a b) = mset a + mset b"
  by (induction a b rule: merge_induct) (auto simp: merge_simps)

lemma set_merge: "set (merge a b) = set a \<union> set b"
  using mset_merge [of a b] by (metis set_mset_mset set_mset_union)

lemma descending_Cons:
  "descending (x # xs) \<longleftrightarrow> (\<forall>y \<in> set xs. sint (file_size y) \<le> sint (file_size x)) \<and> descending xs"
  by (simp add: descending_def)

lemma descending_merge: "descending a \<Longrightarrow> descending b \<Longrightarrow> descending (merge a b)"
proof (induction a b rule: merge_induct)
  case (4 x a y b)
  then show ?case
    by (fastforce simp: merge_simps descending_Cons set_merge)
qed (auto simp: merge_simps merge_Nil_right merge_Nil_left)

lemma filter_merge:
  "descending a \<Longrightarrow> descending b \<Longrightarrow>
   filter (\<lambda>f. file_size f = k) (merge a b)
     = filter (\<lambda>f. file_size f = k) b @ filter (\<lambda>f. file_size f = k) a"
proof (induction a b rule: merge_induct)
  case (4 x a y b)
  show ?case
  proof (cases "sint (file_size y) < sint (file_size x)")
    case True
    have "filter (\<lambda>f. file_size f = k) (y # b) = []" if "file_size x = k"
      using "4.prems"(2) True that by (auto simp: descending_Cons filter_empty_conv)
    with True "4.IH"(1) "4.prems" show ?thesis
      by (auto simp: merge_simps descending_Cons)
  next
    case False
    with "4.IH"(2) "4.prems" show ?thesis
      by (auto simp: merge_simps descending_Cons)
  qed
qed (auto simp: merge_simps merge_Nil_right merge_Nil_left)

lemma do_merge_sort_0: "do_merge_sort [] 0 = Returns []"
  by (subst do_merge_sort.simps) simp

lemma do_merge_sort_1: "do_merge_sort [f] (Suc 0) = Returns [f]"
  by (subst do_merge_sort.simps) simp

lemma do_merge_sort_correct:
  "n = length files \<Longrightarrow>
   \<exists>ys. do_merge_sort files n = Returns ys \<and> mset ys = mset files \<and> descending ys \<and>
      (\<forall>k. filter (\<lambda>f. file_size f = k) ys = rev (filter (\<lambda>f. file_size f = k) files))"
proof (induction n arbitrary: files rule: less_induct)
  case (less n)
  show ?case
  proof (cases "n \<le> 1")
    case True
    with less.prems show ?thesis
      by (cases files) (auto simp: do_merge_sort_0 do_merge_sort_1 descending_def)
  next
    case False
    define m where "m = n div 2"
    have m: "0 < m" "m < n" "n - m < n" "m \<le> length files"
      using False less.prems by (auto simp: m_def)
    have l1: "m = length (take m files)" and l2: "n - m = length (drop m files)"
      using m less.prems by auto
    from less.IH [OF m(2) l1] obtain a where a:
      "do_merge_sort (take m files) m = Returns a" "mset a = mset (take m files)" "descending a"
      "\<And>k. filter (\<lambda>f. file_size f = k) a = rev (filter (\<lambda>f. file_size f = k) (take m files))"
      by blast
    from less.IH [OF m(3) l2] obtain b where b:
      "do_merge_sort (drop m files) (n - m) = Returns b" "mset b = mset (drop m files)" "descending b"
      "\<And>k. filter (\<lambda>f. file_size f = k) b = rev (filter (\<lambda>f. file_size f = k) (drop m files))"
      by blast
    have res: "do_merge_sort files n = Returns (merge a b)"
      using False m a(1) b(1) by (simp add: do_merge_sort.simps [of files n] m_def [symmetric] Let_def)
    have "mset (merge a b) = mset (take m files) + mset (drop m files)"
      by (simp add: mset_merge a b)
    also have "\<dots> = mset (take m files @ drop m files)" by (simp del: append_take_drop_id)
    finally have ms: "mset (merge a b) = mset files" by simp
    have fl: "filter (\<lambda>f. file_size f = k) (merge a b) = rev (filter (\<lambda>f. file_size f = k) files)" for k
    proof -
      have "filter (\<lambda>f. file_size f = k) (merge a b)
          = rev (filter (\<lambda>f. file_size f = k) (take m files @ drop m files))"
        by (simp add: filter_merge a b del: append_take_drop_id)
      then show ?thesis by simp
    qed
    from res ms fl descending_merge [OF a(3) b(3)] show ?thesis by blast
  qed
qed

subsection \<open>Sizes after the build\<close>

lemma foldl_plus_sum_list: "foldl (+) (a :: off_t) xs = a + sum_list xs"
  by (induction xs arbitrary: a) (auto simp: add.assoc)

lemma logged_Returns:
  "logged l r = Returns (v, l') \<longleftrightarrow> (\<exists>l0. r = Returns (v, l0) \<and> l' = l @ l0)"
  by (cases r) auto

lemma build_tree_never_NULL: "build_tree path fs \<noteq> Returns (None, l)"
proof (cases fs)
  case (Fs_node st dir)
  then show ?thesis
    by (auto simp: Let_def split: sum.splits option.splits outcome.splits)
qed

lemma build_size_ok:
  "(\<forall>t l. build_tree path fs = Returns (Some t, l) \<longrightarrow> size_ok t)"
  "(\<forall>subs' sz' l. build_entries path ents subs sz = Returns ((subs', sz'), l) \<longrightarrow>
      (\<forall>c \<in> set subs. size_ok c) \<longrightarrow>
      (\<forall>c \<in> set subs'. size_ok c) \<and>
      sz' - sum_list (map file_size subs') = sz - sum_list (map file_size subs))"
proof (induction path fs and path ents subs sz rule: build_tree_build_entries.induct)
  case (1 path st dir)
  show ?case
  proof (intro allI impI)
    fix t l
    assume r: "build_tree path (Fs_node st dir) = Returns (Some t, l)"
    show "size_ok t"
    proof (cases st)
      case (Inl e)
      with r show ?thesis by simp
    next
      case (Inr s)
      show ?thesis
      proof (cases "S_ISDIR (st_mode s)")
        case False
        with r Inr show ?thesis by (auto simp: Let_def)
      next
        case True
        show ?thesis
        proof (cases dir)
          case None
          with r Inr True show ?thesis by (auto simp: Let_def)
        next
          case (Some entries)
          with r Inr True obtain subs sz' where
            b: "build_entries path entries [] (st_size s) = Returns ((subs, sz'), l)"
            and t: "t = Directory path sz' (ucast (drop_bit FILE_TYPE_OFFSET (st_mode s AND S_IFMT))) subs (st_size s) (Some False)"
            by (auto simp: Let_def split: outcome.splits prod.splits)
          from "1.IH" [OF Inr refl True Some] b
          have "(\<forall>c \<in> set subs. size_ok c) \<and> sz' - sum_list (map file_size subs) = st_size s"
            by simp
          then show ?thesis by (auto simp: t algebra_simps)
        qed
      qed
    qed
  qed
next
  case (2 path subdirs sz)
  then show ?case by simp
next
  case (3 path d_name n rest subdirs sz)
  show ?case
  proof (intro allI impI)
    fix subs' sz' l
    assume r: "build_entries path ((d_name, n) # rest) subdirs sz = Returns ((subs', sz'), l)"
      and ok: "\<forall>c \<in> set subdirs. size_ok c"
    show "(\<forall>c \<in> set subs'. size_ok c) \<and>
      sz' - sum_list (map file_size subs') = sz - sum_list (map file_size subdirs)"
    proof (cases "d_name = ''.'' \<or> d_name = ''..''")
      case True
      with r "3.IH"(1) ok show ?thesis by simp
    next
      case False
      show ?thesis
      proof (cases "build_tree (concat_path path d_name) n")
        case (Returns p)
        obtain ptr l1 where p: "p = (ptr, l1)" by (cases p)
        show ?thesis
        proof (cases ptr)
          case None
          with r False Returns p obtain l0 where
            "build_entries path rest subdirs sz = Returns ((subs', sz'), l0)"
            by (auto simp: logged_Returns)
          with "3.IH"(3) [OF False Returns [unfolded p None] refl refl] ok
          show ?thesis by simp
        next
          case (Some new_file)
          with r False Returns p obtain l0 where
            b: "build_entries path rest (new_file # subdirs) (sz + file_size new_file)
                  = Returns ((subs', sz'), l0)"
            by (auto simp: logged_Returns)
          from "3.IH"(2) [OF False] Returns p Some have "size_ok new_file" by simp
          with "3.IH"(4) [OF False Returns [unfolded p Some] refl refl] b ok
          show ?thesis by simp
        qed
      qed (use r False in auto)
    qed
  qed
qed

subsection \<open>Sizes after a deletion\<close>

lemma remove_never_fails:
  "(\<forall>ok f' l. remove_node sy f = Returns ((ok, f'), l) \<longrightarrow> ok)"
  "(\<forall>kept result' l. remove_children sy cs result = Returns ((kept, result'), l) \<longrightarrow>
      kept = [] \<and> result' = result)"
proof (induction sy f and sy cs result rule: remove_node_remove_children.induct)
  case (1 sy name sz type)
  then show ?case by (auto split: if_splits)
next
  case (2 sy name sz type subdirs self_size subdirs_sorted)
  then show ?case by (auto split: if_splits outcome.splits)
next
  case (3 sy result)
  then show ?case by simp
next
  case (4 sy c nxt result)
  show ?case
  proof (intro allI impI)
    fix kept result' l
    assume r: "remove_children sy (c # nxt) result = Returns ((kept, result'), l)"
    then obtain ok c' l1 where c: "remove_node sy c = Returns ((ok, c'), l1)"
      by (auto split: outcome.splits)
    with "4.IH"(1) have ok by blast
    with r c obtain l0 where "remove_children sy nxt result = Returns ((kept, result'), l0)"
      by (auto simp: logged_Returns)
    with "4.IH"(2) [OF c refl refl] \<open>ok\<close> show "kept = [] \<and> result' = result" by simp
  qed
qed

lemma remove_node_Returns:
  assumes "remove_node sy f = Returns ((ok, f'), l)"
  shows "ok"
  using assms remove_never_fails(1) by blast

lemma remove_file_internal_Returns:
  assumes "remove_file_internal sy (f, frs) True = Returns ((ok, parent), l)"
  shows "ok \<and> parent =
    (case frs of [] \<Rightarrow> None
     | fr # up \<Rightarrow>
        let d = update_size (Directory (parent_name fr) (parent_size fr) (parent_type fr)
                  (before fr @ after fr) (parent_self_size fr) (parent_subdirs_sorted fr))
        in Some (d, update_sizes d up))"
proof -
  from assms obtain f' where n: "remove_node sy f = Returns ((ok, f'), l)"
    by (auto simp: remove_file_internal_def Let_def split: outcome.splits list.splits)
  then have ok by (rule remove_node_Returns)
  with assms n show ?thesis
    by (auto simp: remove_file_internal_def Let_def split: list.splits)
qed

text \<open>The siblings along the path.\<close>

lemma size_ok_plug:
  "size_ok (plug g fr) \<longleftrightarrow>
     parent_size fr = parent_self_size fr + sum_list (map file_size (before fr @ g # after fr)) \<and>
     size_ok g \<and> (\<forall>c \<in> set (before fr @ after fr). size_ok c)"
  by (auto simp: plug_def)

lemma file_size_plug: "file_size (plug g fr) = parent_size fr"
  by (simp add: plug_def)

lemma size_ok_root_of_focus: "size_ok (root_of (g, frs)) \<Longrightarrow> size_ok g"
proof (induction frs arbitrary: g)
  case Nil
  then show ?case by simp
next
  case (Cons fr frs)
  from Cons.IH [of "plug g fr"] Cons.prems have "size_ok (plug g fr)" by simp
  then show ?case by (simp add: size_ok_plug)
qed

lemma size_ok_update_sizes:
  "size_ok (root_of (g, frs)) \<Longrightarrow> size_ok g' \<Longrightarrow> size_ok (root_of (g', update_sizes g' frs))"
proof (induction frs arbitrary: g g')
  case Nil
  then show ?case by simp
next
  case (Cons fr frs)
  from Cons.prems(1) have p: "size_ok (root_of (plug g fr, frs))" by simp
  then have "size_ok (plug g fr)" by (rule size_ok_root_of_focus)
  with Cons.prems(2) have "size_ok (plug g' (update_size_frame g' fr))"
    by (simp add: size_ok_plug update_size_frame_def foldl_plus_sum_list)
  from Cons.IH [OF p this] show ?case by simp
qed

lemma size_ok_replace_focus:
  "size_ok (root_of (g, frs)) \<Longrightarrow> size_ok g' \<Longrightarrow> file_size g' = file_size g \<Longrightarrow>
   size_ok (root_of (g', frs))"
proof (induction frs arbitrary: g g')
  case Nil
  then show ?case by simp
next
  case (Cons fr frs)
  from Cons.prems(1) have p: "size_ok (root_of (plug g fr, frs))" by simp
  then have "size_ok (plug g fr)" by (rule size_ok_root_of_focus)
  with Cons.prems(2,3) have "size_ok (plug g' fr)" by (simp add: size_ok_plug)
  from Cons.IH [OF p this] show ?case by (simp add: file_size_plug)
qed

lemma remove_file_size_ok:
  assumes inv: "size_ok (root_of c)"
    and r: "remove_file sy c = Returns ((ok, Some c'), l)"
  shows "size_ok (root_of c')"
proof -
  obtain f frs where c: "c = (f, frs)" by (cases c)
  from r c remove_file_internal_Returns [of sy f frs ok "Some c'" l]
  obtain fr up where frs: "frs = fr # up"
    and c': "c' = (update_size (Directory (parent_name fr) (parent_size fr) (parent_type fr)
                  (before fr @ after fr) (parent_self_size fr) (parent_subdirs_sorted fr)),
                update_sizes (update_size (Directory (parent_name fr) (parent_size fr) (parent_type fr)
                  (before fr @ after fr) (parent_self_size fr) (parent_subdirs_sorted fr))) up)"
    by (auto simp: remove_file_def Let_def split: list.splits)
  from inv c frs have p: "size_ok (root_of (plug f fr, up))" by simp
  then have "size_ok (plug f fr)" by (rule size_ok_root_of_focus)
  then have "size_ok (update_size (Directory (parent_name fr) (parent_size fr) (parent_type fr)
                  (before fr @ after fr) (parent_self_size fr) (parent_subdirs_sorted fr)))"
    by (simp add: size_ok_plug foldl_plus_sum_list)
  from size_ok_update_sizes [OF p this] show ?thesis by (simp add: c')
qed

lemma update_sizes_shrink:
  "size_ok (root_of (g, frs)) \<Longrightarrow> file_size g' = file_size g - s \<Longrightarrow>
   update_sizes g' frs
     = map (\<lambda>fr. fr\<lparr>parent_size := parent_size fr - s, parent_subdirs_sorted := Some False\<rparr>) frs"
proof (induction frs arbitrary: g g')
  case Nil
  then show ?case by simp
next
  case (Cons fr frs)
  from Cons.prems(1) have p: "size_ok (root_of (plug g fr, frs))" by simp
  then have "size_ok (plug g fr)" by (rule size_ok_root_of_focus)
  with Cons.prems(2) have u: "update_size_frame g' fr
      = fr\<lparr>parent_size := parent_size fr - s, parent_subdirs_sorted := Some False\<rparr>"
    by (simp add: size_ok_plug update_size_frame_def foldl_plus_sum_list)
  have "file_size (plug g' (update_size_frame g' fr)) = file_size (plug g fr) - s"
    by (simp add: u file_size_plug)
  from Cons.IH [OF p this] u show ?case by simp
qed

subsection \<open>Sizes along the loop of main\<close>

lemma find_entity_split:
  "find_entity s passed subs = Some (b, cur, a) \<Longrightarrow> passed @ subs = b @ cur # a"
proof (induction subs arbitrary: passed)
  case Nil
  then show ?case by simp
next
  case (Cons x subs)
  show ?case
  proof (cases "get_file_name (file_name x) = s")
    case True
    with Cons.prems show ?thesis by simp
  next
    case False
    with Cons.prems have "find_entity s (passed @ [x]) subs = Some (b, cur, a)" by simp
    from Cons.IH [OF this] show ?thesis by simp
  qed
qed

lemma next_entity_root_of:
  assumes "next_entity c s = Returns (Some c')"
  shows "root_of c' = root_of c"
proof -
  obtain f frs where c: "c = (f, frs)" by (cases c)
  show ?thesis
  proof (cases "s = ''..''")
    case True
    with assms c show ?thesis by (auto split: list.splits)
  next
    case False
    with assms c obtain name sz type subdirs self_size subdirs_sorted b cur a where
      f: "f = Directory name sz type subdirs self_size subdirs_sorted"
      and fe: "find_entity s [] subdirs = Some (b, cur, a)"
      and c': "c' = (cur, \<lparr>parent_name = name, parent_size = sz, parent_type = type,
                     before = b, after = a, parent_self_size = self_size,
                     parent_subdirs_sorted = subdirs_sorted\<rparr> # frs)"
      by (auto split: if_splits file_t.splits option.splits)
    from find_entity_split [OF fe] have "subdirs = b @ cur # a" by simp
    with c f c' show ?thesis by (simp add: plug_def)
  qed
qed

lemma sum_list_sizes_mset:
  "mset ys = mset xs \<Longrightarrow> sum_list (map file_size ys) = sum_list (map file_size xs)"
proof -
  assume "mset ys = mset xs"
  then have "mset (map file_size ys) = mset (map file_size xs)" by simp
  then have "sum_mset (mset (map file_size ys)) = sum_mset (mset (map file_size xs))" by simp
  then show ?thesis by (simp only: sum_mset_sum_list)
qed

lemma print_node_size_ok:
  assumes "print_node f = Returns f'" and "size_ok f"
  shows "size_ok f' \<and> file_size f' = file_size f"
proof (cases "file_type f = 4")
  case False
  with assms show ?thesis by (simp add: print_node_def)
next
  case True
  with assms obtain shown where s: "sorted_subdirs f = Returns (f', shown)"
    by (auto simp: print_node_def split: outcome.splits)
  then obtain name sz type subdirs self_size flag where
    f: "f = Directory name sz type subdirs self_size (Some flag)"
    by (cases f rule: sorted_subdirs.cases) auto
  show ?thesis
  proof (cases flag)
    case True
    with s f have "f' = f" by auto
    with assms(2) show ?thesis by simp
  next
    case False
    from do_merge_sort_correct [OF refl, of subdirs] obtain ys where
      ys: "do_merge_sort subdirs (length subdirs) = Returns ys" "mset ys = mset subdirs"
      by blast
    from ys(2) have "set ys = set subdirs" by (rule mset_eq_setD)
    moreover from s f False ys(1) have "f' = Directory name sz type ys self_size (Some True)"
      by auto
    ultimately show ?thesis
      using assms(2) f sum_list_sizes_mset [OF ys(2)] by simp
  qed
qed

lemma process_rm_size_ok:
  assumes "process_rm sy c line = Returns (Some c', l)" and "size_ok (root_of c)"
  shows "size_ok (root_of c')"
proof -
  define target where
    "target = (if is_empty_line line then Returns (Some c)
               else next_entity c (case line of Some s \<Rightarrow> s | None \<Rightarrow> []))"
  from assms(1) obtain tr where t: "target = Returns (Some tr)"
    unfolding process_rm_def target_def [symmetric]
    by (cases target) (auto split: option.splits)
  with assms(1) obtain ok l' where r: "remove_file sy tr = Returns ((ok, Some c'), l')"
    unfolding process_rm_def target_def [symmetric]
    by (cases "remove_file sy tr") auto
  from t have "root_of tr = root_of c"
    by (auto simp: target_def next_entity_root_of split: if_splits)
  with assms(2) have "size_ok (root_of tr)" by simp
  from this r show ?thesis by (rule remove_file_size_ok)
qed

lemma dispatch_size_ok:
  assumes "dispatch sy c line = Returns (Some c', l)" and "size_ok (root_of c)"
  shows "size_ok (root_of c')"
proof (cases "line \<noteq> [] \<and> hd line = CHR ''/''")
  case True
  with assms(1) have
    "(\<exists>line'. process_rm sy c line' = Returns (Some c', l)) \<or> c' = c"
    by (auto simp: dispatch_def process_command_def split: prod.splits if_splits)
  with assms(2) show ?thesis by (auto intro: process_rm_size_ok)
next
  case False
  with assms(1) have "next_entity c (extract_name line) = Returns (Some c') \<or> c' = c"
    by (auto simp: dispatch_def Let_def split: outcome.splits option.splits)
  with assms(2) show ?thesis by (auto simp: next_entity_root_of)
qed

subsection \<open>Commands and the small file system\<close>

lemma extract_name_not_command:
  assumes "extract_name line = ''..''"
  shows "\<not> (line \<noteq> [] \<and> hd line = CHR ''/'')"
proof
  assume "line \<noteq> [] \<and> hd line = CHR ''/''"
  then obtain rest where line: "line = CHR ''/'' # rest" by (cases line) auto
  then have "dropWhile isspace line = line" by (simp add: isspace_def)
  with assms line have e: "rev (dropWhile isspace (rev line)) = ''..''"
    by (simp add: extract_name_def Let_def)
  have "rev (dropWhile isspace (rev line)) @ rev (takeWhile isspace (rev line)) = line"
    by (metis rev_append rev_rev_ident takeWhile_dropWhile_id)
  with e line show False by simp
qed

lemma build_fixture: "build_tree ''/r'' fixture = Returns (Some fixture_tree, [])"
  by (simp add: fixture_def fixture_tree_def listing_def regular_def S_ISDIR_def S_IFMT_def
      S_IFDIR_def FILE_TYPE_OFFSET_def concat_path_def)

lemma print_fixture:
  "print_node fixture_tree =
     Returns (Directory ''/r'' 600 4
       [Directory ''/r/c'' 300 4 [File ''/r/c/d'' 300 8] 0 (Some False),
        File ''/r/b'' 200 8, File ''/r/a'' 100 8]
       0 (Some True))"
  by (simp add: fixture_tree_def print_node_def do_merge_sort.simps merge_def)

lemma rm_a:
  "dispatch all_ok (Directory ''/r'' 600 4
       [Directory ''/r/c'' 300 4 [File ''/r/c/d'' 300 8] 0 (Some False),
        File ''/r/b'' 200 8, File ''/r/a'' 100 8]
       0 (Some True), []) ''/rm a''
   = Returns (Some (Directory ''/r'' 500 4
       [Directory ''/r/c'' 300 4 [File ''/r/c/d'' 300 8] 0 (Some False),
        File ''/r/b'' 200 8] 0 (Some False), []), [])"
  by (simp add: dispatch_def process_command_def strsep_def process_rm_def isspace_def
      get_file_name_def remove_file_def remove_file_internal_def all_ok_def Let_def)

subsection \<open>The sort flag along the loop of main\<close>

lemma build_sorted_ok:
  "(\<forall>t l. build_tree path fs = Returns (Some t, l) \<longrightarrow> sorted_ok t)"
  "(\<forall>subs' sz' l. build_entries path ents subs sz = Returns ((subs', sz'), l) \<longrightarrow>
      (\<forall>c \<in> set subs. sorted_ok c) \<longrightarrow> (\<forall>c \<in> set subs'. sorted_ok c))"
proof (induction path fs and path ents subs sz rule: build_tree_build_entries.induct)
  case (1 path st dir)
  show ?case
  proof (intro allI impI)
    fix t l
    assume r: "build_tree path (Fs_node st dir) = Returns (Some t, l)"
    show "sorted_ok t"
    proof (cases st)
      case (Inl e)
      with r show ?thesis by simp
    next
      case (Inr s)
      show ?thesis
      proof (cases "S_ISDIR (st_mode s)")
        case False
        with r Inr show ?thesis by (auto simp: Let_def)
      next
        case True
        show ?thesis
        proof (cases dir)
          case None
          with r Inr True show ?thesis by (auto simp: Let_def)
        next
          case (Some entries)
          with r Inr True obtain subs sz' where
            b: "build_entries path entries [] (st_size s) = Returns ((subs, sz'), l)"
            and t: "t = Directory path sz' (ucast (drop_bit FILE_TYPE_OFFSET (st_mode s AND S_IFMT))) subs (st_size s) (Some False)"
            by (auto simp: Let_def split: outcome.splits prod.splits)
          from "1.IH" [OF Inr refl True Some] b have "\<forall>c \<in> set subs. sorted_ok c"
            by simp
          then show ?thesis by (simp add: t)
        qed
      qed
    qed
  qed
next
  case (2 path subdirs sz)
  then show ?case by simp
next
  case (3 path d_name n rest subdirs sz)
  show ?case
  proof (intro allI impI)
    fix subs' sz' l
    assume r: "build_entries path ((d_name, n) # rest) subdirs sz = Returns ((subs', sz'), l)"
      and ok: "\<forall>c \<in> set subdirs. sorted_ok c"
    show "\<forall>c \<in> set subs'. sorted_ok c"
    proof (cases "d_name = ''.'' \<or> d_name = ''..''")
      case True
      with r "3.IH"(1) ok show ?thesis by simp
    next
      case False
      show ?thesis
      proof (cases "build_tree (concat_path path d_name) n")
        case (Returns p)
        obtain ptr l1 where p: "p = (ptr, l1)" by (cases p)
        show ?thesis
        proof (cases ptr)
          case None
          with Returns p build_tree_never_NULL show ?thesis by blast
        next
          case (Some new_file)
          with r False Returns p obtain l0 where
            b: "build_entries path rest (new_file # subdirs) (sz + file_size new_file)
                  = Returns ((subs', sz'), l0)"
            by (auto simp: logged_Returns)
          from "3.IH"(2) [OF False] Returns p Some have "sorted_ok new_file" by simp
          with "3.IH"(4) [OF False Returns [unfolded p Some] refl refl] b ok
          show ?thesis by simp
        qed
      qed (use r False in auto)
    qed
  qed
qed

lemma descending_sizes: "descending xs \<longleftrightarrow> sorted_wrt (\<lambda>a b. sint b \<le> sint a) (map file_size xs)"
  by (simp add: descending_def sorted_wrt_map)

lemma sorted_ok_plug:
  "sorted_ok (plug g fr) \<longleftrightarrow>
     (parent_subdirs_sorted fr = Some True \<longrightarrow> descending (before fr @ g # after fr)) \<and>
     sorted_ok g \<and> (\<forall>c \<in> set (before fr @ after fr). sorted_ok c)"
  by (auto simp: plug_def)

lemma sorted_ok_root_of_focus: "sorted_ok (root_of (g, frs)) \<Longrightarrow> sorted_ok g"
proof (induction frs arbitrary: g)
  case Nil
  then show ?case by simp
next
  case (Cons fr frs)
  from Cons.IH [of "plug g fr"] Cons.prems have "sorted_ok (plug g fr)" by simp
  then show ?case by (simp add: sorted_ok_plug)
qed

lemma sorted_ok_update_sizes:
  "sorted_ok (root_of (g, frs)) \<Longrightarrow> sorted_ok g' \<Longrightarrow>
   sorted_ok (root_of (g', update_sizes g' frs))"
proof (induction frs arbitrary: g g')
  case Nil
  then show ?case by simp
next
  case (Cons fr frs)
  from Cons.prems(1) have p: "sorted_ok (root_of (plug g fr, frs))" by simp
  then have "sorted_ok (plug g fr)" by (rule sorted_ok_root_of_focus)
  with Cons.prems(2) have "sorted_ok (plug g' (update_size_frame g' fr))"
    by (simp add: sorted_ok_plug update_size_frame_def)
  from Cons.IH [OF p this] show ?case by simp
qed

lemma sorted_ok_replace_focus:
  "sorted_ok (root_of (g, frs)) \<Longrightarrow> sorted_ok g' \<Longrightarrow> file_size g' = file_size g \<Longrightarrow>
   sorted_ok (root_of (g', frs))"
proof (induction frs arbitrary: g g')
  case Nil
  then show ?case by simp
next
  case (Cons fr frs)
  from Cons.prems(1) have p: "sorted_ok (root_of (plug g fr, frs))" by simp
  then have "sorted_ok (plug g fr)" by (rule sorted_ok_root_of_focus)
  with Cons.prems(2,3) have "sorted_ok (plug g' fr)"
    by (simp add: sorted_ok_plug descending_sizes)
  from Cons.IH [OF p this] show ?case by (simp add: file_size_plug)
qed

lemma remove_file_sorted_ok:
  assumes inv: "sorted_ok (root_of c)"
    and r: "remove_file sy c = Returns ((ok, Some c'), l)"
  shows "sorted_ok (root_of c')"
proof -
  obtain f frs where c: "c = (f, frs)" by (cases c)
  let ?d = "\<lambda>fr. update_size (Directory (parent_name fr) (parent_size fr) (parent_type fr)
                  (before fr @ after fr) (parent_self_size fr) (parent_subdirs_sorted fr))"
  from r c remove_file_internal_Returns [of sy f frs ok "Some c'" l]
  obtain fr up where frs: "frs = fr # up" and c': "c' = (?d fr, update_sizes (?d fr) up)"
    by (auto simp: remove_file_def Let_def split: list.splits)
  from inv c frs have p: "sorted_ok (root_of (plug f fr, up))" by simp
  then have "sorted_ok (plug f fr)" by (rule sorted_ok_root_of_focus)
  then have "sorted_ok (?d fr)" by (simp add: sorted_ok_plug)
  from sorted_ok_update_sizes [OF p this] show ?thesis by (simp add: c')
qed

lemma print_node_sorted_ok:
  assumes "print_node f = Returns f'" and "sorted_ok f"
  shows "sorted_ok f' \<and> file_size f' = file_size f"
proof (cases "file_type f = 4")
  case False
  with assms show ?thesis by (simp add: print_node_def)
next
  case True
  with assms obtain shown where s: "sorted_subdirs f = Returns (f', shown)"
    by (auto simp: print_node_def split: outcome.splits)
  then obtain name sz type subdirs self_size flag where
    f: "f = Directory name sz type subdirs self_size (Some flag)"
    by (cases f rule: sorted_subdirs.cases) auto
  show ?thesis
  proof (cases flag)
    case True
    with s f have "f' = f" by auto
    with assms(2) show ?thesis by simp
  next
    case False
    from do_merge_sort_correct [OF refl, of subdirs] obtain ys where
      ys: "do_merge_sort subdirs (length subdirs) = Returns ys" "mset ys = mset subdirs"
        "descending ys"
      by blast
    from ys(2) have "set ys = set subdirs" by (rule mset_eq_setD)
    moreover from s f False ys(1) have "f' = Directory name sz type ys self_size (Some True)"
      by auto
    ultimately show ?thesis
      using assms(2) f ys(3) by simp
  qed
qed

lemma process_rm_sorted_ok:
  assumes "process_rm sy c line = Returns (Some c', l)" and "sorted_ok (root_of c)"
  shows "sorted_ok (root_of c')"
proof -
  define target where
    "target = (if is_empty_line line then Returns (Some c)
               else next_entity c (case line of Some s \<Rightarrow> s | None \<Rightarrow> []))"
  from assms(1) obtain tr where t: "target = Returns (Some tr)"
    unfolding process_rm_def target_def [symmetric]
    by (cases target) (auto split: option.splits)
  with assms(1) obtain ok l' where r: "remove_file sy tr = Returns ((ok, Some c'), l')"
    unfolding process_rm_def target_def [symmetric]
    by (cases "remove_file sy tr") auto
  from t have "root_of tr = root_of c"
    by (auto simp: target_def next_entity_root_of split: if_splits)
  with assms(2) have "sorted_ok (root_of tr)" by simp
  from this r show ?thesis by (rule remove_file_sorted_ok)
qed

lemma dispatch_sorted_ok:
  assumes "dispatch sy c line = Returns (Some c', l)" and "sorted_ok (root_of c)"
  shows "sorted_ok (root_of c')"
proof (cases "line \<noteq> [] \<and> hd line = CHR ''/''")
  case True
  with assms(1) have
    "(\<exists>line'. process_rm sy c line' = Returns (Some c', l)) \<or> c' = c"
    by (auto simp: dispatch_def process_command_def split: prod.splits if_splits)
  with assms(2) show ?thesis by (auto intro: process_rm_sorted_ok)
next
  case False
  with assms(1) have "next_entity c (extract_name line) = Returns (Some c') \<or> c' = c"
    by (auto simp: dispatch_def Let_def split: outcome.splits option.splits)
  with assms(2) show ?thesis by (auto simp: next_entity_root_of)
qed

lemma flag_invariant:
  "(\<forall>path fs t l. build_tree path fs = Returns (Some t, l) \<longrightarrow> sorted_ok t) \<and>
   (\<forall>sy c f line c' l. sorted_ok (root_of c) \<longrightarrow> print_node (fst c) = Returns f \<longrightarrow>
        dispatch sy (f, snd c) line = Returns (Some c', l) \<longrightarrow> sorted_ok (root_of c'))"
proof (intro conjI allI impI)
  fix path fs t l
  assume "build_tree path fs = Returns (Some t, l)"
  with build_sorted_ok(1) [of path fs] show "sorted_ok t" by blast
next
  fix sy c f line c' l
  assume inv: "sorted_ok (root_of c)" and p: "print_node (fst c) = Returns f"
    and d: "dispatch sy (f, snd c) line = Returns (Some c', l)"
  from inv have "sorted_ok (root_of (fst c, snd c))" by simp
  then have "sorted_ok (fst c)" by (rule sorted_ok_root_of_focus)
  from print_node_sorted_ok [OF p this] sorted_ok_replace_focus [of "fst c" "snd c" f] inv
  have "sorted_ok (root_of (f, snd c))" by simp
  with d show "sorted_ok (root_of c')" by (rule dispatch_sorted_ok)
qed

subsection \<open>Where the process ends\<close>

lemma lstat_failure_exits: "build_tree path (Fs_node (Inl errno) dir) = Exits errno"
  by simp

lemma remove_leaf_failure_exits:
  "type AND 4 = 0 \<Longrightarrow> unlink sy name \<noteq> 0 \<Longrightarrow> rmdir sy name \<noteq> 0 \<Longrightarrow>
   remove_node sy (File name sz type) = Exits (rmdir sy name)"
  by simp

lemma remove_directory_Returns:
  assumes "type AND 4 \<noteq> 0"
    and "remove_node sy (Directory name sz type subdirs self_size subdirs_sorted)
           = Returns ((ok, d), l)"
  shows "ok \<and> d = Directory name self_size type [] self_size (Some False)"
proof -
  from assms obtain kept result l0 where
    c: "remove_children sy subdirs True = Returns ((kept, result), l0)"
    by (auto split: outcome.splits)
  with remove_never_fails(2) [of sy subdirs True] have "kept = []" "result" by auto
  with assms c show ?thesis by (auto split: if_splits)
qed

lemma process_rm_root:
  assumes "remove_file sy (f, []) = Returns ((ok, parent), l)"
  shows "process_rm sy (f, []) None
           = Returns (None, l @ [''[INFO] removed root directory; exiting''])"
proof -
  from assms have "parent = None"
    by (auto simp: remove_file_def remove_file_internal_def split: outcome.splits)
  with assms show ?thesis by (simp add: process_rm_def)
qed

lemma process_rm_unresolved:
  "\<not> is_empty_line (Some s) \<Longrightarrow> next_entity cur s = Returns None \<Longrightarrow>
   process_rm sy cur (Some s) = Crashes"
  by (simp add: process_rm_def)

lemma main_bad_invocation:
  "length argv \<noteq> 1 \<Longrightarrow> length argv \<noteq> 2 \<Longrightarrow>
   main argv e = Returns (1, [''[ERROR] incorrect arguments''])"
  by (simp add: main_def)

lemma main_loop_end_of_input:
  "print_node (fst cur) = Returns f \<Longrightarrow> main_loop sy cur [] = Returns (0, [])"
  by simp

lemma main_open_failure:
  "length argv = 1 \<or> length argv = 2 \<Longrightarrow> open_dot e \<noteq> 0 \<Longrightarrow>
   main argv e = Exits (open_dot e)"
  by (auto simp: main_def)

section \<open>The claims\<close>

text \<open>
  C1. \<open>size_ok t\<close> says that in every directory of the tree \<open>t\<close>, \<^verbatim>\<open>size\<close> is
  \<^verbatim>\<open>self_size\<close> plus the sum of the sizes of the children it has. The tree that
  \<^verbatim>\<open>build_tree\<close> returns has this property. When the tree around a cursor has it and
  \<^verbatim>\<open>remove_file\<close> returns, the tree around the parent it leaves has it. And it is kept by
  every turn of the loop of \<^verbatim>\<open>main\<close> (\<^verbatim>\<open>print_node\<close>, then the line read), so it holds
  after every \<^verbatim>\<open>/rm\<close>.
\<close>

theorem size_invariant:
  "(\<forall>path fs t l. build_tree path fs = Returns (Some t, l) \<longrightarrow> size_ok t) \<and>
   (\<forall>sy c ok c' l. size_ok (root_of c) \<longrightarrow> remove_file sy c = Returns ((ok, Some c'), l) \<longrightarrow>
        size_ok (root_of c')) \<and>
   (\<forall>sy c f line c' l. size_ok (root_of c) \<longrightarrow> print_node (fst c) = Returns f \<longrightarrow>
        dispatch sy (f, snd c) line = Returns (Some c', l) \<longrightarrow> size_ok (root_of c'))"
proof (intro conjI allI impI)
  fix path fs t l
  assume "build_tree path fs = Returns (Some t, l)"
  with build_size_ok(1) [of path fs] show "size_ok t" by blast
next
  fix sy c ok c' l
  assume "size_ok (root_of c)" "remove_file sy c = Returns ((ok, Some c'), l)"
  then show "size_ok (root_of c')" by (rule remove_file_size_ok)
next
  fix sy c f line c' l
  assume inv: "size_ok (root_of c)" and p: "print_node (fst c) = Returns f"
    and d: "dispatch sy (f, snd c) line = Returns (Some c', l)"
  from inv have "size_ok (root_of (fst c, snd c))" by simp
  then have "size_ok (fst c)" by (rule size_ok_root_of_focus)
  from print_node_size_ok [OF p this] size_ok_replace_focus [of "fst c" "snd c" f] inv
  have "size_ok (root_of (f, snd c))" by simp
  with d show "size_ok (root_of c')" by (rule dispatch_size_ok)
qed

theorem size_invariant_witness:
  "build_tree ''/r'' fixture = Returns (Some fixture_tree, [])
   \<and> size_ok fixture_tree
   \<and> size_ok (root_of (File ''/r/a'' 100 8,
        [\<lparr>parent_name = ''/r'', parent_size = 600, parent_type = 4,
           before = [Directory ''/r/c'' 300 4 [File ''/r/c/d'' 300 8] 0 (Some False),
                     File ''/r/b'' 200 8],
           after = [], parent_self_size = 0, parent_subdirs_sorted = Some True\<rparr>]))
   \<and> remove_file all_ok (File ''/r/a'' 100 8,
        [\<lparr>parent_name = ''/r'', parent_size = 600, parent_type = 4,
           before = [Directory ''/r/c'' 300 4 [File ''/r/c/d'' 300 8] 0 (Some False),
                     File ''/r/b'' 200 8],
           after = [], parent_self_size = 0, parent_subdirs_sorted = Some True\<rparr>])
       = Returns ((True, Some (Directory ''/r'' 500 4
           [Directory ''/r/c'' 300 4 [File ''/r/c/d'' 300 8] 0 (Some False),
            File ''/r/b'' 200 8] 0 (Some False), [])), [])
   \<and> print_node (fst (fixture_tree, [])) = Returns (Directory ''/r'' 600 4
         [Directory ''/r/c'' 300 4 [File ''/r/c/d'' 300 8] 0 (Some False),
          File ''/r/b'' 200 8, File ''/r/a'' 100 8]
         0 (Some True))
   \<and> dispatch all_ok (Directory ''/r'' 600 4
         [Directory ''/r/c'' 300 4 [File ''/r/c/d'' 300 8] 0 (Some False),
          File ''/r/b'' 200 8, File ''/r/a'' 100 8]
         0 (Some True), snd (fixture_tree, [])) ''/rm a''
       = Returns (Some (Directory ''/r'' 500 4
           [Directory ''/r/c'' 300 4 [File ''/r/c/d'' 300 8] 0 (Some False),
            File ''/r/b'' 200 8] 0 (Some False), []), [])
   \<and> size_ok (root_of (Directory ''/r'' 500 4
           [Directory ''/r/c'' 300 4 [File ''/r/c/d'' 300 8] 0 (Some False),
            File ''/r/b'' 200 8] 0 (Some False), []))"
proof -
  let ?c = "(File ''/r/a'' 100 8,
        [\<lparr>parent_name = ''/r'', parent_size = 600, parent_type = 4,
           before = [Directory ''/r/c'' 300 4 [File ''/r/c/d'' 300 8] 0 (Some False),
                     File ''/r/b'' 200 8],
           after = [], parent_self_size = 0, parent_subdirs_sorted = Some True\<rparr>])"
  let ?c' = "(Directory ''/r'' 500 4
           [Directory ''/r/c'' 300 4 [File ''/r/c/d'' 300 8] 0 (Some False),
            File ''/r/b'' 200 8] 0 (Some False), [])"
  let ?shown = "Directory ''/r'' 600 4
         [Directory ''/r/c'' 300 4 [File ''/r/c/d'' 300 8] 0 (Some False),
          File ''/r/b'' 200 8, File ''/r/a'' 100 8]
         0 (Some True)"
  from size_invariant build_fixture have t: "size_ok fixture_tree"
    by blast
  have inv: "size_ok (root_of ?c)"
    by (simp add: plug_def)
  have r: "remove_file all_ok ?c = Returns ((True, Some ?c'), [])"
    by (simp add: remove_file_def remove_file_internal_def all_ok_def Let_def)
  from size_invariant inv r have after_remove: "size_ok (root_of ?c')"
    by blast
  have p: "print_node (fst (fixture_tree, [])) = Returns ?shown"
    using print_fixture by simp
  have d: "dispatch all_ok (?shown, snd (fixture_tree, [])) ''/rm a'' = Returns (Some ?c', [])"
    using rm_a by simp
  from t have "size_ok (root_of (fixture_tree, []))"
    by simp
  with size_invariant p d have "size_ok (root_of ?c')"
    by blast
  with t inv r p d build_fixture show ?thesis
    by simp
qed

text \<open>
  C2. A directory \<^verbatim>\<open>/r\<close> that lists \<^verbatim>\<open>a\<close>, \<^verbatim>\<open>x\<close> and \<^verbatim>\<open>b\<close>, where \<^verbatim>\<open>lstat\<close> of
  \<^verbatim>\<open>/r/x\<close> fails with \<^verbatim>\<open>EACCES\<close> (13): \<^verbatim>\<open>build_tree\<close> does not skip \<^verbatim>\<open>x\<close> and go on
  to \<^verbatim>\<open>b\<close>; the \<^verbatim>\<open>err(errno, ...)\<close> in the call for \<^verbatim>\<open>/r/x\<close> ends the process with
  status 13. (\<^verbatim>\<open>build_tree\<close> never returns \<^verbatim>\<open>NULL\<close>, lemma \<open>build_tree_never_NULL\<close>, so
  the branch that would warn and skip the entry is never taken.)
\<close>

theorem stat_failure_of_child_exits:
  "build_tree ''/r'' (listing [(''a'', regular 100), (''x'', Fs_node (Inl 13) None),
        (''b'', regular 200)]) = Exits 13"
  by (simp add: listing_def regular_def S_ISDIR_def S_IFMT_def
      S_IFDIR_def FILE_TYPE_OFFSET_def concat_path_def)

text \<open>
  C3. \<^verbatim>\<open>remove_file\<close> on the directory \<^verbatim>\<open>/r\<close> of the small file system, when
  \<^verbatim>\<open>unlink\<close> and \<^verbatim>\<open>rmdir\<close> of its child \<^verbatim>\<open>/r/b\<close> fail with \<^verbatim>\<open>EACCES\<close> (13): the call
  does not return with \<^verbatim>\<open>b\<close> left in the list and the size of \<^verbatim>\<open>/r\<close> recomputed; the
  \<^verbatim>\<open>err(errno, ...)\<close> in the removal of \<^verbatim>\<open>b\<close> ends the process with status 13.
  (Whenever the removal of a node returns, it returns true, lemma \<open>remove_never_fails\<close>,
  and a directory it returns from is left without children, lemma
  \<open>remove_directory_Returns\<close>.)
\<close>

theorem failed_child_removal_exits:
  "remove_file (denied ''/r/b'') (fixture_tree, []) = Exits 13"
  by (simp add: fixture_tree_def remove_file_def remove_file_internal_def denied_def)

text \<open>
  C4. With the cursor on the root \<^verbatim>\<open>/r\<close> of the small file system: \<^verbatim>\<open>/rm nosuch\<close> and
  \<^verbatim>\<open>/rm ..\<close> name no node, \<^verbatim>\<open>next_entity\<close> returns \<^verbatim>\<open>NULL\<close>, and \<^verbatim>\<open>process_rm\<close>
  reads \<^verbatim>\<open>to_remove->parent\<close> through it; \<^verbatim>\<open>/rm a\<close>, when \<^verbatim>\<open>unlink\<close> and \<^verbatim>\<open>rmdir\<close> of
  \<^verbatim>\<open>/r/a\<close> fail with \<^verbatim>\<open>EACCES\<close> (13), ends the process with status 13. In neither case
  does the loop go on with the cursor it had.
\<close>

theorem rm_failure_ends_the_process:
  "dispatch all_ok (fixture_tree, []) ''/rm nosuch'' = Crashes
   \<and> dispatch all_ok (fixture_tree, []) ''/rm ..'' = Crashes
   \<and> dispatch (denied ''/r/a'') (fixture_tree, []) ''/rm a'' = Exits 13"
  by (simp add: dispatch_def process_command_def strsep_def process_rm_def isspace_def
      get_file_name_def remove_file_def remove_file_internal_def all_ok_def denied_def
      fixture_tree_def Let_def)

text \<open>
  C5. For a directory whose sort flag agrees with its list (the flag is clear, or it is set
  and the children are in descending order of size), \<^verbatim>\<open>sorted_subdirs\<close> returns, and
  leaves in the directory, a list in which every adjacent pair is in descending order of
  size; the list has as many children as before (it is a permutation of them), the flag is
  set, and a second call returns the same list and changes nothing. The flag agrees with
  the list in every directory of every tree the program reaches (\<open>sorted_ok\<close>, lemma
  \<open>flag_invariant\<close>).
\<close>

theorem sorted_subdirs_descending:
  assumes "subdirs_sorted = Some False \<or> (subdirs_sorted = Some True \<and> descending subdirs)"
  shows "\<exists>xs. sorted_subdirs (Directory name sz type subdirs self_size subdirs_sorted)
            = Returns (Directory name sz type xs self_size (Some True), xs)
          \<and> (\<forall>i. Suc i < length xs \<longrightarrow> sint (file_size (xs ! Suc i)) \<le> sint (file_size (xs ! i)))
          \<and> length xs = length subdirs
          \<and> mset xs = mset subdirs
          \<and> sorted_subdirs (Directory name sz type xs self_size (Some True))
            = Returns (Directory name sz type xs self_size (Some True), xs)"
proof -
  have adj: "\<forall>i. Suc i < length xs \<longrightarrow> sint (file_size (xs ! Suc i)) \<le> sint (file_size (xs ! i))"
    if "descending xs" for xs
    using that by (auto simp: descending_def dest: sorted_wrt_nth_less [where i = i and j = "Suc i" for i])
  from assms show ?thesis
  proof
    assume f: "subdirs_sorted = Some False"
    from do_merge_sort_correct [OF refl, of subdirs] obtain ys where
      ys: "do_merge_sort subdirs (length subdirs) = Returns ys" "mset ys = mset subdirs" "descending ys"
      by blast
    from ys(2) have "length ys = length subdirs" by (rule mset_eq_length)
    with ys adj [OF ys(3)] f show ?thesis by simp
  next
    assume "subdirs_sorted = Some True \<and> descending subdirs"
    with adj [of subdirs] show ?thesis by simp
  qed
qed

theorem sorted_subdirs_descending_witness:
  "(Some False = Some False \<or> (Some False = Some True \<and>
       descending [File ''/r/a'' 100 8, File ''/r/c'' 300 8, File ''/r/b'' 200 8]))
   \<and> sorted_subdirs
        (Directory ''/r'' 600 4 [File ''/r/a'' 100 8, File ''/r/c'' 300 8, File ''/r/b'' 200 8]
           0 (Some False))
      = Returns
          (Directory ''/r'' 600 4 [File ''/r/c'' 300 8, File ''/r/b'' 200 8, File ''/r/a'' 100 8]
             0 (Some True),
           [File ''/r/c'' 300 8, File ''/r/b'' 200 8, File ''/r/a'' 100 8])
   \<and> (\<exists>xs. sorted_subdirs
        (Directory ''/r'' 600 4 [File ''/r/a'' 100 8, File ''/r/c'' 300 8, File ''/r/b'' 200 8]
           0 (Some False))
          = Returns (Directory ''/r'' 600 4 xs 0 (Some True), xs)
        \<and> (\<forall>i. Suc i < length xs \<longrightarrow>
               sint (file_size (xs ! Suc i)) \<le> sint (file_size (xs ! i)))
        \<and> length xs = length [File ''/r/a'' 100 8, File ''/r/c'' 300 8, File ''/r/b'' 200 8]
        \<and> mset xs = mset [File ''/r/a'' 100 8, File ''/r/c'' 300 8, File ''/r/b'' 200 8]
        \<and> sorted_subdirs (Directory ''/r'' 600 4 xs 0 (Some True))
          = Returns (Directory ''/r'' 600 4 xs 0 (Some True), xs))"
proof -
  have h: "Some False = Some False \<or> (Some False = Some True \<and>
       descending [File ''/r/a'' 100 8, File ''/r/c'' 300 8, File ''/r/b'' 200 8])"
    by simp
  have "do_merge_sort [File ''/r/a'' 100 8, File ''/r/c'' 300 8, File ''/r/b'' 200 8] 3
      = Returns [File ''/r/c'' 300 8, File ''/r/b'' 200 8, File ''/r/a'' 100 8]"
    by (simp add: do_merge_sort.simps merge_def)
  then have e: "do_merge_sort [File ''/r/a'' 100 8, File ''/r/c'' 300 8, File ''/r/b'' 200 8]
        (Suc (Suc (Suc 0)))
      = Returns [File ''/r/c'' 300 8, File ''/r/b'' 200 8, File ''/r/a'' 100 8]"
    by (simp add: numeral_3_eq_3)
  from sorted_subdirs_descending [OF h, of "''/r''" 600 4 0] h e show ?thesis
    by simp
qed

text \<open>
  C6, as the code has it. The sort is a merge sort by descending size, and it is not
  stable: \<^verbatim>\<open>merge\<close> takes from the second half unless the first half's head is strictly
  larger, so children of equal size come out in the reverse of the order they had before.
  For every size \<open>k\<close>, the children of size \<open>k\<close> after the sort are those before it,
  reversed.
\<close>

theorem merge_sort_reverses_ties:
  "\<exists>ys. do_merge_sort files (length files) = Returns ys \<and> descending ys \<and> mset ys = mset files \<and>
     (\<forall>k. filter (\<lambda>f. file_size f = k) ys = rev (filter (\<lambda>f. file_size f = k) files))"
  using do_merge_sort_correct [OF refl, of files] by blast

text \<open>Two children of the same size change places.\<close>

theorem stable_sort_counterexample:
  "sorted_subdirs (Directory ''/r'' 10 4 [File ''/r/a'' 5 8, File ''/r/b'' 5 8] 0 (Some False))
     = Returns (Directory ''/r'' 10 4 [File ''/r/b'' 5 8, File ''/r/a'' 5 8] 0 (Some True),
                [File ''/r/b'' 5 8, File ''/r/a'' 5 8])
   \<and> filter (\<lambda>f. file_size f = 5) [File ''/r/b'' 5 8, File ''/r/a'' 5 8]
     \<noteq> filter (\<lambda>f. file_size f = 5) [File ''/r/a'' 5 8, File ''/r/b'' 5 8]"
  by (simp add: do_merge_sort.simps merge_def)

text \<open>
  C7. With the cursor on the root, whatever the root is and whatever \<^verbatim>\<open>unlink\<close> and
  \<^verbatim>\<open>rmdir\<close> answer: the name \<^verbatim>\<open>..\<close> resolves to \<^verbatim>\<open>NULL\<close> in \<^verbatim>\<open>next_entity\<close>, and
  on the line \<^verbatim>\<open>/rm ..\<close> \<^verbatim>\<open>process_rm\<close> reads \<^verbatim>\<open>to_remove->parent\<close> through that pointer
  (line 391): the program crashes, no error is written and no cursor is left.
\<close>

theorem rm_dotdot_at_root_crashes:
  "next_entity (f, []) ''..'' = Returns None
   \<and> process_rm sy (f, []) (Some ''..'') = Crashes
   \<and> dispatch sy (f, []) ''/rm ..'' = Crashes"
  by (simp add: dispatch_def process_command_def strsep_def process_rm_def isspace_def)

text \<open>
  On the other path that resolves a name, a line that is \<^verbatim>\<open>..\<close> alone (white space
  around it aside), \<^verbatim>\<open>main\<close> tests the pointer: the line \<^verbatim>\<open>[ERROR] no such file: ..\<close> is
  written, the cursor stays the root, and the loop goes on to the next line with it.
\<close>

lemma dotdot_at_root:
  assumes "extract_name line = ''..''"
  shows "next_entity (f, []) (extract_name line) = Returns None
       \<and> dispatch sy (f, []) line = Returns (Some (f, []), [''[ERROR] no such file: ..''])
       \<and> main_loop sy (f, []) (line # rest)
           = (case print_node f of
                Returns f' \<Rightarrow> logged [''[ERROR] no such file: ..''] (main_loop sy (f', []) rest)
              | Exits e \<Rightarrow> Exits e
              | Crashes \<Rightarrow> Crashes)"
proof -
  note nc = extract_name_not_command [OF assms]
  have d: "dispatch sy (g, []) line = Returns (Some (g, []), [''[ERROR] no such file: ..''])" for g
    using nc assms by (auto simp: dispatch_def)
  show ?thesis using assms d by (simp split: outcome.splits)
qed

lemma dotdot_at_root_example:
  "extract_name '' .. '' = ''..''
   \<and> dispatch all_ok (fixture_tree, []) '' .. ''
       = Returns (Some (fixture_tree, []), [''[ERROR] no such file: ..''])
   \<and> main_loop all_ok (fixture_tree, []) ['' .. ''] = Returns (0, [''[ERROR] no such file: ..''])"
proof -
  have h: "extract_name '' .. '' = ''..''"
    by (simp add: extract_name_def isspace_def)
  from dotdot_at_root [OF h, of fixture_tree all_ok "[]"] h print_fixture show ?thesis
    by (simp add: print_node_def fixture_tree_def)
qed

text \<open>
  C8. When the node under the cursor is a leaf file of size \<open>s\<close>, the size invariant holds
  in the tree and \<^verbatim>\<open>remove_file\<close> returns true, then the parent it leaves is the old parent
  without the file and with its size smaller by \<open>s\<close>, and every further ancestor is as it
  was but for its size, smaller by \<open>s\<close>, and its sort flag, cleared. The other children
  of the parent and of every ancestor (\<open>before\<close> and \<open>after\<close>, with all that is below
  them) are the same, so no other node's size changes.
\<close>

theorem leaf_removal_sizes:
  assumes inv: "size_ok (root_of (File name s type, frs))"
    and r: "remove_file sy (File name s type, frs) = Returns ((True, parent), l)"
  shows "parent =
    (case frs of
       [] \<Rightarrow> None
     | fr # up \<Rightarrow>
         Some (Directory (parent_name fr) (parent_size fr - s) (parent_type fr)
                 (before fr @ after fr) (parent_self_size fr) (Some False),
               map (\<lambda>g. g\<lparr>parent_size := parent_size g - s,
                            parent_subdirs_sorted := Some False\<rparr>) up))"
proof (cases frs)
  case Nil
  with r remove_file_internal_Returns [of sy "File name s type" frs True parent l]
  show ?thesis by (simp add: remove_file_def)
next
  case (Cons fr up)
  let ?d = "update_size (Directory (parent_name fr) (parent_size fr) (parent_type fr)
                  (before fr @ after fr) (parent_self_size fr) (parent_subdirs_sorted fr))"
  from r Cons remove_file_internal_Returns [of sy "File name s type" frs True parent l]
  have parent: "parent = Some (?d, update_sizes ?d up)"
    by (simp add: remove_file_def Let_def)
  from inv Cons have p: "size_ok (root_of (plug (File name s type) fr, up))" by simp
  then have "size_ok (plug (File name s type) fr)" by (rule size_ok_root_of_focus)
  then have d: "?d = Directory (parent_name fr) (parent_size fr - s) (parent_type fr)
                 (before fr @ after fr) (parent_self_size fr) (Some False)"
    by (simp add: size_ok_plug foldl_plus_sum_list)
  then have "file_size ?d = file_size (plug (File name s type) fr) - s"
    by (simp add: file_size_plug)
  from update_sizes_shrink [OF p this] parent d Cons show ?thesis by simp
qed

theorem leaf_removal_sizes_witness:
  "size_ok (root_of (File ''/r/c/d'' 300 8,
      [\<lparr>parent_name = ''/r/c'', parent_size = 300, parent_type = 4, before = [], after = [],
         parent_self_size = 0, parent_subdirs_sorted = Some False\<rparr>,
       \<lparr>parent_name = ''/r'', parent_size = 600, parent_type = 4, before = [],
         after = [File ''/r/b'' 200 8, File ''/r/a'' 100 8],
         parent_self_size = 0, parent_subdirs_sorted = Some True\<rparr>]))
   \<and> remove_file all_ok (File ''/r/c/d'' 300 8,
      [\<lparr>parent_name = ''/r/c'', parent_size = 300, parent_type = 4, before = [], after = [],
         parent_self_size = 0, parent_subdirs_sorted = Some False\<rparr>,
       \<lparr>parent_name = ''/r'', parent_size = 600, parent_type = 4, before = [],
         after = [File ''/r/b'' 200 8, File ''/r/a'' 100 8],
         parent_self_size = 0, parent_subdirs_sorted = Some True\<rparr>])
     = Returns ((True,
         Some (Directory ''/r/c'' 0 4 [] 0 (Some False),
           [\<lparr>parent_name = ''/r'', parent_size = 300, parent_type = 4, before = [],
              after = [File ''/r/b'' 200 8, File ''/r/a'' 100 8],
              parent_self_size = 0, parent_subdirs_sorted = Some False\<rparr>])), [])"
proof -
  let ?frs = "[\<lparr>parent_name = ''/r/c'', parent_size = 300, parent_type = 4, before = [],
         after = [], parent_self_size = 0, parent_subdirs_sorted = Some False\<rparr>,
       \<lparr>parent_name = ''/r'', parent_size = 600, parent_type = 4, before = [],
         after = [File ''/r/b'' 200 8, File ''/r/a'' 100 8],
         parent_self_size = 0, parent_subdirs_sorted = Some True\<rparr>]"
  have inv: "size_ok (root_of (File ''/r/c/d'' 300 8, ?frs))"
    by (simp add: plug_def)
  obtain parent l where
    r: "remove_file all_ok (File ''/r/c/d'' 300 8, ?frs) = Returns ((True, parent), l)"
    and l: "l = []"
    by (simp add: remove_file_def remove_file_internal_def all_ok_def Let_def)
  from leaf_removal_sizes [OF inv r] inv r l show ?thesis
    by simp
qed

text \<open>
  C9. Exit codes other than 0 and 1: when \<^verbatim>\<open>open(".")\<close> fails with \<^verbatim>\<open>EACCES\<close> (13) the
  process exits with 13; when \<^verbatim>\<open>realpath\<close> returns \<^verbatim>\<open>NULL\<close> (the path does not exist),
  \<^verbatim>\<open>lstat(NULL)\<close> fails with \<^verbatim>\<open>EFAULT\<close> and the process exits with 14; when \<^verbatim>\<open>lstat\<close> of
  the base path fails with \<^verbatim>\<open>ENOENT\<close> (2) the process exits with 2. Each time it is
  \<^verbatim>\<open>err(errno, ...)\<close> that exits, before \<^verbatim>\<open>exit_code = 1\<close> is reached.
\<close>

theorem exit_code_is_errno:
  "exit_code (main [''cleaner'']
      \<lparr>getcwd = Some ''/r'', realpath = (\<lambda>p. Some p), open_dot = 13, file_system = fixture,
       syscalls = all_ok, input = []\<rparr>) = Some 13
   \<and> exit_code (main [''cleaner'', ''/nosuch'']
      \<lparr>getcwd = Some ''/r'', realpath = (\<lambda>p. None), open_dot = 0, file_system = fixture,
       syscalls = all_ok, input = []\<rparr>) = Some 14
   \<and> exit_code (main [''cleaner'']
      \<lparr>getcwd = Some ''/r'', realpath = (\<lambda>p. Some p), open_dot = 0,
       file_system = Fs_node (Inl 2) None, syscalls = all_ok, input = []\<rparr>) = Some 2"
  by (simp add: main_def EFAULT_def)

text \<open>
  C10. \<^verbatim>\<open>/rm\<close> with the cursor on the root \<^verbatim>\<open>/r\<close> of the small file system. When
  \<^verbatim>\<open>rmdir\<close> of \<^verbatim>\<open>/r\<close> fails with \<^verbatim>\<open>EACCES\<close> (13), the process exits with 13 inside
  \<^verbatim>\<open>remove_file\<close>: \<^verbatim>\<open>process_rm\<close> does not return, nothing is written by it, and the exit
  code is not 0. When the removal succeeds, \<^verbatim>\<open>process_rm\<close> writes its line and returns
  \<^verbatim>\<open>NULL\<close> (lemma \<open>process_rm_root\<close>), and \<^verbatim>\<open>main\<close> passes the freed root to
  \<^verbatim>\<open>deallocate_files\<close>.
\<close>

theorem rm_root_exit:
  "main [''cleaner'']
      \<lparr>getcwd = Some ''/r'', realpath = (\<lambda>p. Some p), open_dot = 0, file_system = fixture,
       syscalls = denied ''/r'', input = [''/rm'']\<rparr> = Exits 13
   \<and> main [''cleaner'']
      \<lparr>getcwd = Some ''/r'', realpath = (\<lambda>p. Some p), open_dot = 0, file_system = fixture,
       syscalls = all_ok, input = [''/rm'']\<rparr> = Crashes"
  by (simp add: main_def build_fixture print_fixture dispatch_def process_command_def strsep_def
      process_rm_def remove_file_def remove_file_internal_def all_ok_def denied_def Let_def)

end
